theory Spec2Isabelle
  imports Main
begin

section \<open>Python values used by tinyconf\<close>

text \<open>
  A Python \<open>str\<close> is a sequence of Unicode code points, so a character is modelled by
  its code point (what \<open>ord\<close> returns) and a string by the list of them. \<open>chr\<close> and
  \<open>ord\<close> are then the conversions between \<open>int\<close> keys and code points; \<open>str\<close>
  writes a string literal of the source.
\<close>

type_synonym pychar = nat
type_synonym pystr = "pychar list"

definition ord :: "char \<Rightarrow> int" where
  "ord c = of_char c"

definition chr :: "int \<Rightarrow> pychar" where
  "chr k = nat k"

definition str :: "string \<Rightarrow> pystr" where
  "str cs = map of_char cs"

datatype error = IndexError | CursesError

definition len :: "'a list \<Rightarrow> int" where
  "len xs = int (length xs)"

text \<open>\<open>xs[i]\<close>: a negative index counts from the end; out of range raises IndexError.\<close>

definition py_index :: "'a list \<Rightarrow> int \<Rightarrow> error + 'a" where
  "py_index xs i =
     (let j = (if i < 0 then len xs + i else i)
      in if 0 \<le> j \<and> j < len xs then Inr (xs ! nat j) else Inl IndexError)"

text \<open>\<open>xs[i] = v\<close>, with the same index rule.\<close>

definition py_setitem :: "'a list \<Rightarrow> int \<Rightarrow> 'a \<Rightarrow> error + 'a list" where
  "py_setitem xs i v =
     (let j = (if i < 0 then len xs + i else i)
      in if 0 \<le> j \<and> j < len xs then Inr (xs[nat j := v]) else Inl IndexError)"

text \<open>\<open>xs.pop(i)\<close>, the list that remains.\<close>

definition py_pop :: "'a list \<Rightarrow> int \<Rightarrow> error + 'a list" where
  "py_pop xs i =
     (let j = (if i < 0 then len xs + i else i)
      in if 0 \<le> j \<and> j < len xs then Inr (take (nat j) xs @ drop (Suc (nat j)) xs)
         else Inl IndexError)"

text \<open>\<open>xs.insert(i, v)\<close>: the index is clamped into \<open>[0, len]\<close>, it never raises.\<close>

definition py_list_insert :: "'a list \<Rightarrow> int \<Rightarrow> 'a \<Rightarrow> 'a list" where
  "py_list_insert xs i v =
     (let j = (if i < 0 then max 0 (len xs + i) else min i (len xs))
      in take (nat j) xs @ [v] @ drop (nat j) xs)"

text \<open>The slices \<open>xs[:k]\<close> and \<open>xs[k:]\<close>: a negative bound counts from the end, and
  bounds outside the list are clamped.\<close>

definition slice_to :: "'a list \<Rightarrow> int \<Rightarrow> 'a list" where
  "slice_to xs k = take (nat (if k < 0 then len xs + k else k)) xs"

definition slice_from :: "'a list \<Rightarrow> int \<Rightarrow> 'a list" where
  "slice_from xs k = drop (nat (if k < 0 then len xs + k else k)) xs"

text \<open>\<open>"\n".join(lines)\<close>.\<close>

fun join_nl :: "pystr list \<Rightarrow> pystr" where
  "join_nl [] = []"
| "join_nl [l] = l"
| "join_nl (l # m # ls) = l @ [10] @ join_nl (m # ls)"

text \<open>The line boundaries of \<open>str.splitlines\<close>: \<open>\n\<close>, \<open>\r\<close>, \<open>\v\<close>, \<open>\f\<close>,
  \<open>\x1c\<close>, \<open>\x1d\<close>, \<open>\x1e\<close>, \<open>\x85\<close>, U+2028, U+2029 (and \<open>\r\n\<close> as one).\<close>

definition is_linebreak :: "pychar \<Rightarrow> bool" where
  "is_linebreak c = (c = 10 \<or> c = 13 \<or> c = 11 \<or> c = 12 \<or> c = 28 \<or> c = 29 \<or> c = 30
     \<or> c = 133 \<or> c = 8232 \<or> c = 8233)"

text \<open>\<open>str.splitlines()\<close>, with the line being read as accumulator: a line ends at each
  boundary, the text after the last boundary is a line only when it is not empty.\<close>

fun splitlines_from :: "pystr \<Rightarrow> pystr \<Rightarrow> pystr list" where
  "splitlines_from acc [] = (if acc = [] then [] else [acc])"
| "splitlines_from acc [c] = (if is_linebreak c then [acc] else [acc @ [c]])"
| "splitlines_from acc (c # d # cs) =
     (if c = 13 \<and> d = 10 then acc # splitlines_from [] cs
      else if is_linebreak c then acc # splitlines_from [] (d # cs)
      else splitlines_from (acc @ [c]) (d # cs))"

definition splitlines :: "pystr \<Rightarrow> pystr list" where
  "splitlines t = splitlines_from [] t"

text \<open>Reading a file opened with \<open>open(path, 'r')\<close>: universal newlines, \<open>\r\n\<close> and
  \<open>\r\<close> arrive as \<open>\n\<close>.\<close>

fun universal_newlines :: "pystr \<Rightarrow> pystr" where
  "universal_newlines [] = []"
| "universal_newlines [c] = (if c = 13 then [10] else [c])"
| "universal_newlines (c # d # cs) =
     (if c = 13 \<and> d = 10 then 10 # universal_newlines cs
      else if c = 13 then 10 # universal_newlines (d # cs)
      else c # universal_newlines (d # cs))"

text \<open>\<open>str.isspace\<close> on one character, and \<open>str.strip()\<close>.\<close>

definition py_isspace :: "pychar \<Rightarrow> bool" where
  "py_isspace c = ((9 \<le> c \<and> c \<le> 13) \<or> (28 \<le> c \<and> c \<le> 32) \<or> c = 133 \<or> c = 160
     \<or> c = 5760 \<or> (8192 \<le> c \<and> c \<le> 8202) \<or> c = 8232 \<or> c = 8233 \<or> c = 8239
     \<or> c = 8287 \<or> c = 12288)"

definition strip :: "pystr \<Rightarrow> pystr" where
  "strip t = rev (dropWhile py_isspace (rev (dropWhile py_isspace t)))"

section \<open>The key codes of curses\<close>

text \<open>The constants of the curses library that \<open>main\<close> and \<open>move_cursor\<close> compare keys
  with, at their ncurses values (all above the character range \<open>0..255\<close>).\<close>

definition KEY_DOWN :: int where "KEY_DOWN = 258"
definition KEY_UP :: int where "KEY_UP = 259"
definition KEY_LEFT :: int where "KEY_LEFT = 260"
definition KEY_RIGHT :: int where "KEY_RIGHT = 261"
definition KEY_BACKSPACE :: int where "KEY_BACKSPACE = 263"
definition KEY_ENTER :: int where "KEY_ENTER = 343"
definition KEY_MOUSE :: int where "KEY_MOUSE = 409"

section \<open>The editor state\<close>

text \<open>
  The fields of \<open>TinyconfEditor\<close>, and with them the part of the world the editor
  touches: \<open>disk\<close> is the content of the file at \<open>filepath\<close> (\<open>None\<close> when there is
  no such file) and \<open>writes\<close> lists, oldest first, the texts that \<open>save_file\<close> has
  written there. The screen is not part of the state: \<open>draw\<close> only writes to it, and the
  writes that curses refuses are swallowed by the source.
\<close>

record editor =
  buffer :: "pystr list"
  cursor_y :: int
  cursor_x :: int
  scroll_offset :: int
  filepath :: "string option"
  status :: string
  status_timer :: int
  unsaved :: bool
  command_mode :: bool
  command_input :: pystr
  slash_prefix :: bool
  disk :: "pystr option"
  writes :: "pystr list"

text \<open>One turn of the terminal: the size \<open>getmaxyx\<close> reports to the \<open>draw\<close> before
  the key is read, the key \<open>getch\<close> returns, and what \<open>getmouse\<close> would report
  (column, row, and the height \<open>getmaxyx\<close> reports to the click handler); \<open>None\<close>
  when curses has no mouse event, where \<open>getmouse\<close> raises.\<close>

record event =
  ev_h :: int
  ev_w :: int
  ev_key :: int
  ev_mouse :: "(int \<times> int \<times> int) option"

text \<open>What a part of the program that reads keys comes to: it returns, it waits for a key
  when the input given is used up (with the state it waits in), or it raises.\<close>

datatype 'a outcome = Done 'a | Blocked editor | Raised error

text \<open>The truth value of \<open>self.filepath\<close>: neither \<open>None\<close> nor the empty string.\<close>

definition has_path :: "editor \<Rightarrow> bool" where
  "has_path s = (case filepath s of None \<Rightarrow> False | Some p \<Rightarrow> p \<noteq> [])"

text \<open>\<open>__init__\<close> up to the call of \<open>main\<close>: the fields, and the buffer loaded from
  the file when there is one.\<close>

definition load :: "pystr \<Rightarrow> pystr list" where
  "load content = (let ls = splitlines (universal_newlines content) in if ls = [] then [[]] else ls)"

definition init :: "string option \<Rightarrow> pystr option \<Rightarrow> editor" where
  "init path content =
     (let s = \<lparr> buffer = [[]], cursor_y = 0, cursor_x = 0, scroll_offset = 0,
                filepath = path, status = ''EXEC MODE: type /q to quit, /s to save'',
                status_timer = 0, unsaved = False, command_mode = False,
                command_input = [], slash_prefix = False, disk = content, writes = [] \<rparr>
      in case content of
           None \<Rightarrow> s
         | Some t \<Rightarrow> if has_path s then s\<lparr>buffer := load t\<rparr> else s)"

section \<open>Rendering\<close>

text \<open>Lines 55 to 61 of \<open>draw\<close>: the scroll offset and the row are clamped, then the
  offset follows the cursor.\<close>

definition reconcile :: "int \<Rightarrow> editor \<Rightarrow> editor" where
  "reconcile visible_height s =
     (let off = min (scroll_offset s) (max 0 (len (buffer s) - visible_height));
          y = max 0 (min (cursor_y s) (len (buffer s) - 1));
          off' = (if y < off then y
                  else if y \<ge> off + visible_height then y - visible_height + 1
                  else off)
      in s\<lparr>scroll_offset := off', cursor_y := y\<rparr>)"

text \<open>The loop over the visible rows reads \<open>buffer[scroll_offset + i]\<close> until the index
  passes the end of the buffer; the lines it shows, or the IndexError of the read.\<close>

fun draw_rows :: "pystr list \<Rightarrow> int \<Rightarrow> int list \<Rightarrow> error + pystr list" where
  "draw_rows buf off [] = Inr []"
| "draw_rows buf off (i # rows) =
     (if off + i \<ge> len buf then Inr []
      else case py_index buf (off + i) of
             Inl e \<Rightarrow> Inl e
           | Inr line \<Rightarrow> (case draw_rows buf off rows of
                           Inl e \<Rightarrow> Inl e
                         | Inr ls \<Rightarrow> Inr (line # ls)))"

definition draw :: "int \<Rightarrow> int \<Rightarrow> editor \<Rightarrow> error + editor" where
  "draw h w s =
     (let visible_height = h - 1;
          s1 = reconcile visible_height s
      in case draw_rows (buffer s1) (scroll_offset s1) [0 .. visible_height - 1] of
           Inl e \<Rightarrow> Inl e
         | Inr shown \<Rightarrow>
             (case py_index (buffer s1) (cursor_y s1) of
                Inl e \<Rightarrow> Inl e
              | Inr line \<Rightarrow> Inr (s1\<lparr>cursor_x := min (cursor_x s1) (len line)\<rparr>)))"

section \<open>Editing\<close>

definition insert_ch :: "pystr \<Rightarrow> editor \<Rightarrow> error + editor" where
  "insert_ch ch s =
     (case py_index (buffer s) (cursor_y s) of
        Inl e \<Rightarrow> Inl e
      | Inr line \<Rightarrow>
          (case py_setitem (buffer s) (cursor_y s)
                  (slice_to line (cursor_x s) @ ch @ slice_from line (cursor_x s)) of
             Inl e \<Rightarrow> Inl e
           | Inr b \<Rightarrow> Inr (s\<lparr>buffer := b, cursor_x := cursor_x s + 1, unsaved := True\<rparr>)))"

definition backspace :: "editor \<Rightarrow> error + editor" where
  "backspace s =
     (if cursor_x s > 0 then
        (case py_index (buffer s) (cursor_y s) of
           Inl e \<Rightarrow> Inl e
         | Inr line \<Rightarrow>
             (case py_setitem (buffer s) (cursor_y s)
                     (slice_to line (cursor_x s - 1) @ slice_from line (cursor_x s)) of
                Inl e \<Rightarrow> Inl e
              | Inr b \<Rightarrow> Inr (s\<lparr>buffer := b, cursor_x := cursor_x s - 1, unsaved := True\<rparr>)))
      else if cursor_y s > 0 then
        (case py_index (buffer s) (cursor_y s - 1) of
           Inl e \<Rightarrow> Inl e
         | Inr prev \<Rightarrow>
             (case py_index (buffer s) (cursor_y s) of
                Inl e \<Rightarrow> Inl e
              | Inr cur \<Rightarrow>
                  (case py_setitem (buffer s) (cursor_y s - 1) (prev @ cur) of
                     Inl e \<Rightarrow> Inl e
                   | Inr b \<Rightarrow>
                       (case py_pop b (cursor_y s) of
                          Inl e \<Rightarrow> Inl e
                        | Inr b' \<Rightarrow>
                            Inr (s\<lparr>buffer := b', cursor_x := len prev,
                                   cursor_y := cursor_y s - 1, unsaved := True\<rparr>)))))
      else Inr (s\<lparr>unsaved := True\<rparr>))"

definition newline :: "editor \<Rightarrow> error + editor" where
  "newline s =
     (case py_index (buffer s) (cursor_y s) of
        Inl e \<Rightarrow> Inl e
      | Inr line \<Rightarrow>
          (case py_setitem (buffer s) (cursor_y s) (slice_to line (cursor_x s)) of
             Inl e \<Rightarrow> Inl e
           | Inr b \<Rightarrow>
               Inr (s\<lparr>buffer := py_list_insert b (cursor_y s + 1) (slice_from line (cursor_x s)),
                      cursor_y := cursor_y s + 1, cursor_x := 0, unsaved := True\<rparr>)))"

text \<open>\<open>move_cursor\<close>: the chain of branches moves the cursor, the last line of the
  function clamps the column to the line the cursor is on.\<close>

definition move_branch :: "int \<Rightarrow> editor \<Rightarrow> error + editor" where
  "move_branch key s =
     (if key = KEY_UP \<and> cursor_y s > 0 then Inr (s\<lparr>cursor_y := cursor_y s - 1\<rparr>)
      else if key = KEY_DOWN \<and> cursor_y s < len (buffer s) - 1 then
        Inr (s\<lparr>cursor_y := cursor_y s + 1\<rparr>)
      else if key = KEY_LEFT then
        (if cursor_x s > 0 then Inr (s\<lparr>cursor_x := cursor_x s - 1\<rparr>)
         else if cursor_y s > 0 then
           (case py_index (buffer s) (cursor_y s - 1) of
              Inl e \<Rightarrow> Inl e
            | Inr line \<Rightarrow> Inr (s\<lparr>cursor_y := cursor_y s - 1, cursor_x := len line\<rparr>))
         else Inr s)
      else if key = KEY_RIGHT then
        (case py_index (buffer s) (cursor_y s) of
           Inl e \<Rightarrow> Inl e
         | Inr line \<Rightarrow>
             if cursor_x s < len line then Inr (s\<lparr>cursor_x := cursor_x s + 1\<rparr>)
             else if cursor_y s < len (buffer s) - 1 then
               Inr (s\<lparr>cursor_y := cursor_y s + 1, cursor_x := 0\<rparr>)
             else Inr s)
      else Inr s)"

definition move_cursor :: "int \<Rightarrow> editor \<Rightarrow> error + editor" where
  "move_cursor key s =
     (case move_branch key s of
        Inl e \<Rightarrow> Inl e
      | Inr s1 \<Rightarrow>
          (case py_index (buffer s1) (cursor_y s1) of
             Inl e \<Rightarrow> Inl e
           | Inr line \<Rightarrow> Inr (s1\<lparr>cursor_x := min (cursor_x s1) (len line)\<rparr>)))"

section \<open>Saving and commands\<close>

text \<open>\<open>save_file\<close> writes the joined buffer when there is a path, and does nothing
  otherwise. The program runs on a POSIX system (it imports termios), where a text file
  receives \<open>\n\<close> as it is; the write itself is taken to succeed.\<close>

definition save_file :: "editor \<Rightarrow> editor" where
  "save_file s =
     (if has_path s then
        s\<lparr>disk := Some (join_nl (buffer s)), writes := writes s @ [join_nl (buffer s)],
          unsaved := False, status := ''File saved.'', status_timer := 20\<rparr>
      else s)"

text \<open>The loop of \<open>prompt_save\<close>: keys other than escape, y, Y, n, N are read and
  dropped. It returns the answer, the state and the input left.\<close>

fun prompt_keys :: "editor \<Rightarrow> event list \<Rightarrow> (bool \<times> editor \<times> event list) outcome" where
  "prompt_keys s [] = Blocked s"
| "prompt_keys s (e # es) =
     (if ev_key e = 27 then Done (False, s\<lparr>status := ''Canceled.'', status_timer := 20\<rparr>, es)
      else if ev_key e = ord CHR ''y'' \<or> ev_key e = ord CHR ''Y'' then Done (True, save_file s, es)
      else if ev_key e = ord CHR ''n'' \<or> ev_key e = ord CHR ''N'' then Done (True, s, es)
      else prompt_keys s es)"

definition prompt_save :: "editor \<Rightarrow> event list \<Rightarrow> (bool \<times> editor \<times> event list) outcome" where
  "prompt_save s evs =
     (let s1 = s\<lparr>status := ''Save before quitting? (y/N/esc)''\<rparr>
      in case evs of
           [] \<Rightarrow> Blocked s1
         | e # _ \<Rightarrow> (case draw (ev_h e) (ev_w e) s1 of
                       Inl err \<Rightarrow> Raised err
                     | Inr s2 \<Rightarrow> prompt_keys s2 evs))"

text \<open>\<open>handle_command\<close> returns whether the session goes on (the source's return
  value), the state and the input left.\<close>

definition leave_command :: "editor \<Rightarrow> editor" where
  "leave_command s = s\<lparr>command_input := [], command_mode := False\<rparr>"

definition handle_command :: "editor \<Rightarrow> event list \<Rightarrow> (bool \<times> editor \<times> event list) outcome" where
  "handle_command s evs =
     (let cmd = strip (command_input s)
      in if cmd = str ''/'' then
           (case insert_ch (str ''/'') s of
              Inl err \<Rightarrow> Raised err
            | Inr s1 \<Rightarrow> Done (True, leave_command s1, evs))
         else if cmd = str ''q'' then
           (if \<not> unsaved s then Done (False, s, evs)
            else case prompt_save s evs of
                   Done (answer, s1, evs') \<Rightarrow>
                     if answer then Done (False, s1, evs')
                     else Done (True, leave_command s1, evs')
                 | Blocked b \<Rightarrow> Blocked b
                 | Raised err \<Rightarrow> Raised err)
         else if cmd = str ''s'' then Done (True, leave_command (save_file s), evs)
         else Done (True, leave_command s, evs))"

section \<open>Predicates on states\<close>

text \<open>The cursor is on a line of the buffer, and its column is at most the length of that
  line (the column after the last character is the insertion point).\<close>

definition cursor_ok :: "editor \<Rightarrow> bool" where
  "cursor_ok s =
     (0 \<le> cursor_y s \<and> cursor_y s < len (buffer s) \<and>
      0 \<le> cursor_x s \<and> cursor_x s \<le> len (buffer s ! nat (cursor_y s)))"

definition wf :: "editor \<Rightarrow> bool" where
  "wf s = (cursor_ok s \<and> 0 \<le> scroll_offset s)"


text \<open>A key pressed on a terminal of 5 rows and 40 columns, for the examples.\<close>

definition key_event :: "int \<Rightarrow> event" where
  "key_event k = \<lparr>ev_h = 5, ev_w = 40, ev_key = k, ev_mouse = None\<rparr>"

text \<open>The document and the file are the same in two states: the buffer, the path, the
  dirty flag, the content of the file and the texts written to it.\<close>

definition same_document :: "editor \<Rightarrow> editor \<Rightarrow> bool" where
  "same_document s s' =
     (buffer s' = buffer s \<and> filepath s' = filepath s \<and> unsaved s' = unsaved s \<and>
      disk s' = disk s \<and> writes s' = writes s)"

section \<open>The session loop\<close>

text \<open>The countdown of the status message, once per turn of the loop.\<close>

definition tick :: "editor \<Rightarrow> editor" where
  "tick s =
     (if status_timer s > 0 then
        (let s1 = s\<lparr>status_timer := status_timer s - 1\<rparr>
         in if status_timer s1 = 0
            then s1\<lparr>status := ''COMMAND MODE: type /q to quit, /s to save''\<rparr> else s1)
      else s)"

text \<open>A key in command mode other than Enter.\<close>

definition command_key :: "int \<Rightarrow> editor \<Rightarrow> editor" where
  "command_key key s =
     (if key = 27 then s\<lparr>command_input := [], command_mode := False\<rparr>
      else if key = KEY_BACKSPACE \<or> key = 127 then
        s\<lparr>command_input := slice_to (command_input s) (- 1)\<rparr>
      else if 0 \<le> key \<and> key < 256 then s\<lparr>command_input := command_input s @ [chr key]\<rparr>
      else s)"

text \<open>A key outside command mode.\<close>

definition normal_key :: "event \<Rightarrow> editor \<Rightarrow> error + editor" where
  "normal_key e s =
     (let key = ev_key e
      in if key = ord CHR ''/'' then Inr (s\<lparr>command_mode := True, command_input := []\<rparr>)
         else if key = KEY_BACKSPACE \<or> key = 127 then backspace s
         else if key = KEY_ENTER \<or> key = 10 then newline s
         else if key = KEY_UP \<or> key = KEY_DOWN \<or> key = KEY_LEFT \<or> key = KEY_RIGHT then
           move_cursor key s
         else if key = KEY_MOUSE then
           (case ev_mouse e of
              None \<Rightarrow> Inl CursesError
            | Some (mx, my, h) \<Rightarrow>
                if my < h - 1 then
                  (let line_idx = scroll_offset s + my
                   in if 0 \<le> line_idx \<and> line_idx < len (buffer s) then
                        (case py_index (buffer s) line_idx of
                           Inl err \<Rightarrow> Inl err
                         | Inr line \<Rightarrow>
                             Inr (s\<lparr>cursor_y := line_idx,
                                    cursor_x := max 0 (min (mx - 5) (len line))\<rparr>))
                      else Inr s)
                else Inr s)
         else if 0 \<le> key \<and> key < 256 then insert_ch [chr key] s
         else Inr s)"

lemma prompt_keys_input:
  "prompt_keys s evs = Done (a, s', evs') \<Longrightarrow> length evs' < length evs"
  by (induction evs) (auto split: if_splits)

lemma handle_command_input:
  "handle_command s evs = Done (c, s', evs') \<Longrightarrow> length evs' \<le> length evs"
  by (auto simp: handle_command_def prompt_save_def Let_def
      split: if_splits sum.splits outcome.splits list.splits dest!: prompt_keys_input)

text \<open>The loop of \<open>main\<close>: each turn draws, counts the status down, reads one key and
  dispatches it. With no input left it waits at the head of the loop.\<close>

function main_loop :: "editor \<Rightarrow> event list \<Rightarrow> editor outcome" where
  "main_loop s [] = Blocked s"
| "main_loop s (e # es) =
     (case draw (ev_h e) (ev_w e) s of
        Inl err \<Rightarrow> Raised err
      | Inr s1 \<Rightarrow>
          (let s2 = tick s1
           in if command_mode s2 then
                (if ev_key e = 10 \<or> ev_key e = 13 then
                   (case handle_command s2 es of
                      Done (continue, s3, es') \<Rightarrow>
                        if continue then main_loop s3 es' else Done s3
                    | Blocked b \<Rightarrow> Blocked b
                    | Raised err \<Rightarrow> Raised err)
                 else main_loop (command_key (ev_key e) s2) es)
              else
                (case normal_key e s2 of
                   Inl err \<Rightarrow> Raised err
                 | Inr s3 \<Rightarrow> main_loop s3 es)))"
  by pat_completeness auto
termination
  by (relation "measure (\<lambda>(s, evs). length evs)")
    (auto dest: handle_command_input)

text \<open>\<open>main\<close>: the loop, then the save on exit.\<close>

definition main :: "editor \<Rightarrow> event list \<Rightarrow> editor outcome" where
  "main s evs =
     (case main_loop s evs of
        Done s1 \<Rightarrow> Done (if has_path s1 \<and> unsaved s1 then save_file s1 else s1)
      | Blocked b \<Rightarrow> Blocked b
      | Raised err \<Rightarrow> Raised err)"

section \<open>The invariant of the session\<close>

lemma draw_rows_ok:
  "0 \<le> off \<Longrightarrow> \<forall>i\<in>set rows. 0 \<le> i \<Longrightarrow> \<exists>ls. draw_rows buf off rows = Inr ls"
  by (induction rows) (auto simp: py_index_def len_def Let_def)

lemma reconcile_wf:
  "wf s \<Longrightarrow> wf (reconcile vh s) \<and> cursor_y (reconcile vh s) = cursor_y s"
  by (auto simp: wf_def cursor_ok_def reconcile_def Let_def len_def)

lemma draw_wf:
  assumes "wf s"
  shows "\<exists>s'. draw h w s = Inr s' \<and> wf s' \<and> buffer s' = buffer s \<and> cursor_y s' = cursor_y s
     \<and> cursor_x s' = cursor_x s \<and> scroll_offset s' = scroll_offset (reconcile (h - 1) s)"
proof -
  let ?r = "reconcile (h - 1) s"
  have r: "wf ?r" "cursor_y ?r = cursor_y s" using reconcile_wf[OF assms] by auto
  have b: "buffer ?r = buffer s" "cursor_x ?r = cursor_x s" by (simp_all add: reconcile_def Let_def)
  from r have "0 \<le> scroll_offset ?r" by (simp add: wf_def)
  then obtain ls where ls: "draw_rows (buffer ?r) (scroll_offset ?r) [0 .. h - 1 - 1] = Inr ls"
    using draw_rows_ok[of "scroll_offset ?r" "[0 .. h - 1 - 1]" "buffer ?r"] by auto
  from r have ix: "py_index (buffer ?r) (cursor_y ?r) = Inr (buffer ?r ! nat (cursor_y ?r))"
    by (auto simp: wf_def cursor_ok_def py_index_def Let_def)
  show ?thesis using ls ix r b
    by (auto simp: draw_def Let_def wf_def cursor_ok_def)
qed

lemma insert_ch_wf:
  "wf s \<Longrightarrow> \<exists>s'. insert_ch [c] s = Inr s' \<and> wf s'"
  by (auto simp: wf_def cursor_ok_def insert_ch_def py_index_def py_setitem_def Let_def len_def
      slice_to_def slice_from_def)

lemma backspace_wf:
  "wf s \<Longrightarrow> \<exists>s'. backspace s = Inr s' \<and> wf s'"
  by (auto simp: wf_def cursor_ok_def backspace_def py_index_def py_setitem_def py_pop_def Let_def len_def
      slice_to_def slice_from_def nth_append min_def)

lemma newline_wf:
  "wf s \<Longrightarrow> \<exists>s'. newline s = Inr s' \<and> wf s'"
  by (auto simp: wf_def cursor_ok_def newline_def py_index_def py_setitem_def py_list_insert_def Let_def len_def
      slice_to_def slice_from_def nth_append min_def)

lemma move_cursor_wf:
  "wf s \<Longrightarrow> \<exists>s'. move_cursor key s = Inr s' \<and> wf s'"
  by (auto simp: wf_def cursor_ok_def move_cursor_def move_branch_def py_index_def Let_def len_def)


lemma normal_key_wf:
  "wf s \<Longrightarrow> (\<exists>s'. normal_key e s = Inr s' \<and> wf s') \<or> normal_key e s = Inl CursesError"
  using backspace_wf[of s] newline_wf[of s] move_cursor_wf[of s "ev_key e"]
    insert_ch_wf[of s "chr (ev_key e)"]
  by (auto simp: normal_key_def Let_def wf_def cursor_ok_def py_index_def len_def
      split: option.splits)

lemma save_file_wf: "wf s \<Longrightarrow> wf (save_file s)"
  by (simp add: wf_def cursor_ok_def save_file_def)

lemma leave_command_wf: "wf s \<Longrightarrow> wf (leave_command s)"
  by (simp add: wf_def cursor_ok_def leave_command_def)

lemma tick_wf: "wf s \<Longrightarrow> wf (tick s)"
  by (simp add: wf_def cursor_ok_def tick_def Let_def)

lemma command_key_wf: "wf s \<Longrightarrow> wf (command_key k s)"
  by (simp add: wf_def cursor_ok_def command_key_def)

lemma canceled_wf: "wf s \<Longrightarrow> wf (s\<lparr>status := m, status_timer := n\<rparr>)"
  by (simp add: wf_def cursor_ok_def)

lemma prompt_keys_wf:
  "wf s \<Longrightarrow> (case prompt_keys s evs of Done (a, s', r) \<Rightarrow> wf s' | Blocked b \<Rightarrow> wf b | Raised x \<Rightarrow> x = CursesError)"
  by (induction evs) (auto simp: save_file_wf canceled_wf)

lemma prompt_save_wf:
  assumes "wf s"
  shows "(case prompt_save s evs of Done (a, s', r) \<Rightarrow> wf s' | Blocked b \<Rightarrow> wf b | Raised x \<Rightarrow> x = CursesError)"
proof -
  let ?s1 = "s\<lparr>status := ''Save before quitting? (y/N/esc)''\<rparr>"
  have w1: "wf ?s1" using assms by (simp add: wf_def cursor_ok_def)
  show ?thesis
  proof (cases evs)
    case Nil
    then show ?thesis using w1 by (simp add: prompt_save_def)
  next
    case (Cons e es)
    from draw_wf[OF w1, of "ev_h e" "ev_w e"] obtain s2
      where d: "draw (ev_h e) (ev_w e) ?s1 = Inr s2" and w2: "wf s2" by blast
    show ?thesis using Cons d prompt_keys_wf[OF w2, of evs] by (simp add: prompt_save_def)
  qed
qed

lemma handle_command_wf:
  assumes "wf s"
  shows "(case handle_command s evs of Done (a, s', r) \<Rightarrow> wf s' | Blocked b \<Rightarrow> wf b | Raised x \<Rightarrow> x = CursesError)"
  using assms insert_ch_wf[OF assms, of 47] prompt_save_wf[OF assms, of evs]
  by (auto simp: handle_command_def Let_def str_def leave_command_wf save_file_wf
      split: outcome.splits sum.splits)

lemma main_loop_wf:
  "wf s \<Longrightarrow> (case main_loop s evs of Done s' \<Rightarrow> wf s' | Blocked b \<Rightarrow> wf b | Raised x \<Rightarrow> x = CursesError)"
proof (induction s evs rule: main_loop.induct)
  case (1 s)
  then show ?case by simp
next
  case (2 s e es)
  from draw_wf[OF "2.prems", of "ev_h e" "ev_w e"] obtain s1
    where d: "draw (ev_h e) (ev_w e) s = Inr s1" and w1: "wf s1" by blast
  let ?s2 = "tick s1"
  have w2: "wf ?s2" using w1 by (rule tick_wf)
  show ?case
  proof (cases "command_mode ?s2")
    case True
    show ?thesis
    proof (cases "ev_key e = 10 \<or> ev_key e = 13")
      case enter: True
      show ?thesis
      proof (cases "handle_command ?s2 es")
        case (Done r)
        obtain c s3 es' where r: "r = (c, s3, es')" by (cases r)
        have w3: "wf s3" using handle_command_wf[OF w2, of es] Done r by simp
        show ?thesis
        proof (cases c)
          case True
          have "case main_loop s3 es' of Done s' \<Rightarrow> wf s' | Blocked b \<Rightarrow> wf b | Raised x \<Rightarrow> x = CursesError"
            using "2.IH"(1)[OF d refl \<open>command_mode ?s2\<close> enter Done r[symmetric] refl True w3] .
          then show ?thesis using d \<open>command_mode ?s2\<close> enter Done r True by (simp add: Let_def)
        next
          case False
          then show ?thesis using d \<open>command_mode ?s2\<close> enter Done r w3 by (simp add: Let_def)
        qed
      next
        case (Blocked b)
        then show ?thesis using handle_command_wf[OF w2, of es] d True enter by (simp add: Let_def)
      next
        case (Raised x)
        then show ?thesis using handle_command_wf[OF w2, of es] d True enter by (simp add: Let_def)
      qed
    next
      case False
      have "case main_loop (command_key (ev_key e) ?s2) es of Done s' \<Rightarrow> wf s' | Blocked b \<Rightarrow> wf b | Raised x \<Rightarrow> x = CursesError"
        using "2.IH"(2)[OF d refl True False command_key_wf[OF w2]] .
      then show ?thesis using d True False by (simp add: Let_def)
    qed
  next
    case False
    from normal_key_wf[OF w2, of e] show ?thesis
    proof
      assume "\<exists>s'. normal_key e ?s2 = Inr s' \<and> wf s'"
      then obtain s3 where n: "normal_key e ?s2 = Inr s3" and w3: "wf s3" by blast
      have "case main_loop s3 es of Done s' \<Rightarrow> wf s' | Blocked b \<Rightarrow> wf b | Raised x \<Rightarrow> x = CursesError"
        using "2.IH"(3)[OF d refl False n w3] .
      then show ?thesis using d False n by (simp add: Let_def)
    next
      assume "normal_key e ?s2 = Inl CursesError"
      then show ?thesis using d False by (simp add: Let_def)
    qed
  qed
qed


lemma init_wf: "wf (init path content)"
  by (auto simp: init_def wf_def cursor_ok_def Let_def len_def load_def split: option.splits)

lemma main_wf:
  "wf s \<Longrightarrow> (case main s evs of Done s' \<Rightarrow> wf s' | Blocked b \<Rightarrow> wf b | Raised x \<Rightarrow> x = CursesError)"
  using main_loop_wf[of s evs] by (auto simp: main_def save_file_wf split: outcome.splits)

lemma session_wf:
  "main (init path content) evs = Blocked s \<or> main (init path content) evs = Done s \<Longrightarrow> wf s"
  using main_wf[OF init_wf, of path content evs] by auto

text \<open>No sequence of events makes the session read outside the buffer.\<close>

lemma session_no_index_error: "main (init path content) evs \<noteq> Raised IndexError"
  using main_wf[OF init_wf, of path content evs] by auto



section \<open>The cursor stays in the buffer\<close>



section \<open>The cursor stays in the window\<close>




section \<open>Reconciling twice\<close>

text \<open>
  C9, as amended. For every buffer, cursor and scroll offset, and every visible height
  of at least 1, running the clamping of \<open>draw\<close> a second time changes nothing: neither
  the scroll offset nor the cursor.
\<close>

theorem reconcile_idempotent:
  "1 \<le> visible_height \<Longrightarrow>
   reconcile visible_height (reconcile visible_height s) = reconcile visible_height s"
  by (auto simp: reconcile_def Let_def min_def max_def)

theorem reconcile_idempotent_witness:
  "(1::int) \<le> 3 \<and>
   reconcile 3 (reconcile 3 ((init None None)\<lparr>buffer := [[], [], [], [], [], []], cursor_y := 9, scroll_offset := 1\<rparr>))
     = reconcile 3 ((init None None)\<lparr>buffer := [[], [], [], [], [], []], cursor_y := 9, scroll_offset := 1\<rparr>)
   \<and> scroll_offset (reconcile 3 ((init None None)\<lparr>buffer := [[], [], [], [], [], []], cursor_y := 9, scroll_offset := 1\<rparr>)) = 3"
  using reconcile_idempotent[of 3 "(init None None)\<lparr>buffer := [[], [], [], [], [], []], cursor_y := 9, scroll_offset := 1\<rparr>"]
  by (simp add: reconcile_def init_def Let_def len_def)

text \<open>
  With a visible height of 0 the scroll offset alternates: on the initial state the
  first run sets it to 1 and the second run sets it back to 0.
\<close>

theorem reconcile_not_idempotent_counterexample:
  "reconcile 0 (reconcile 0 (init None None)) \<noteq> reconcile 0 (init None None)"
  by (simp add: reconcile_def init_def Let_def len_def)

section \<open>Moving the cursor\<close>

lemma move_cursor_returns: "cursor_ok s \<Longrightarrow> \<exists>s'. move_cursor key s = Inr s'"
  by (auto simp: cursor_ok_def move_cursor_def move_branch_def py_index_def Let_def len_def)

text \<open>
  C10. Cursor movement never edits: for every state and every key given to
  \<open>move_cursor\<close> (the four arrow keys, with the wraps of left and right, among them),
  a movement that returns leaves the buffer, the dirty flag and every other field but the
  cursor position as they were; and on every state whose cursor is within the buffer the
  movement does return.
\<close>

theorem move_cursor_frame:
  "(\<forall>s'. move_cursor key s = Inr s' \<longrightarrow>
      buffer s' = buffer s \<and> unsaved s' = unsaved s \<and>
      s' = s\<lparr>cursor_y := cursor_y s', cursor_x := cursor_x s'\<rparr>)
   \<and> (cursor_ok s \<longrightarrow> (\<exists>s'. move_cursor key s = Inr s'))"
  using move_cursor_returns[of s key]
  by (auto simp: move_cursor_def move_branch_def split: sum.splits if_splits)

theorem move_cursor_frame_witness:
  "cursor_ok ((init None None)\<lparr>buffer := [str ''ab'', str ''cd''], cursor_y := 1\<rparr>) \<and>
   move_cursor KEY_LEFT ((init None None)\<lparr>buffer := [str ''ab'', str ''cd''], cursor_y := 1\<rparr>)
     = Inr ((init None None)\<lparr>buffer := [str ''ab'', str ''cd''], cursor_y := 0, cursor_x := 2\<rparr>) \<and>
   buffer ((init None None)\<lparr>buffer := [str ''ab'', str ''cd''], cursor_y := 0, cursor_x := 2\<rparr>)
     = buffer ((init None None)\<lparr>buffer := [str ''ab'', str ''cd''], cursor_y := 1\<rparr>) \<and>
   unsaved ((init None None)\<lparr>buffer := [str ''ab'', str ''cd''], cursor_y := 0, cursor_x := 2\<rparr>)
     = unsaved ((init None None)\<lparr>buffer := [str ''ab'', str ''cd''], cursor_y := 1\<rparr>)"
  using move_cursor_frame[of KEY_LEFT "(init None None)\<lparr>buffer := [str ''ab'', str ''cd''], cursor_y := 1\<rparr>"]
  by (simp add: init_def cursor_ok_def len_def str_def move_cursor_def move_branch_def
      py_index_def Let_def KEY_LEFT_def KEY_UP_def KEY_DOWN_def)

section \<open>Deleting backwards\<close>

text \<open>
  C6, as amended. Delete-backward with the cursor at row 0, column 0 leaves the buffer and
  the cursor as they were and sets the dirty flag, whatever it was before.
\<close>

theorem backspace_at_origin:
  "cursor_y s = 0 \<Longrightarrow> cursor_x s = 0 \<Longrightarrow> backspace s = Inr (s\<lparr>unsaved := True\<rparr>)"
  by (simp add: backspace_def)

theorem backspace_at_origin_witness:
  "cursor_y (init (Some ''f'') (Some (str ''ab''))) = 0 \<and>
   cursor_x (init (Some ''f'') (Some (str ''ab''))) = 0 \<and>
   buffer (init (Some ''f'') (Some (str ''ab''))) = [str ''ab''] \<and>
   backspace (init (Some ''f'') (Some (str ''ab'')))
     = Inr ((init (Some ''f'') (Some (str ''ab'')))\<lparr>unsaved := True\<rparr>)"
  using backspace_at_origin[of "init (Some ''f'') (Some (str ''ab''))"]
  by (simp add: init_def has_path_def load_def splitlines_def str_def is_linebreak_def Let_def)

text \<open>
  The claim as stated has the dirty flag unchanged. On a file just opened with the content
  \<open>ab\<close> the flag is clear before the key and set after it.
\<close>

theorem backspace_at_origin_counterexample:
  "\<exists>s'. backspace (init (Some ''f'') (Some (str ''ab''))) = Inr s' \<and>
     \<not> unsaved (init (Some ''f'') (Some (str ''ab''))) \<and> unsaved s'"
  by (simp add: backspace_def init_def has_path_def Let_def)

text \<open>
  C7. Delete-backward at column 0 of a row greater than 0 appends that row to the row
  before it, removes the row, and puts the cursor on the row before, at the length that
  row had before the merge; the dirty flag is set. On the buffer \<open>["ab", "cd"]\<close> with the
  cursor at (1, 0) the result is \<open>["abcd"]\<close> with the cursor at (0, 2).
\<close>

theorem backspace_merges:
  assumes "cursor_x s = 0" and "0 < cursor_y s" and "cursor_y s < len (buffer s)"
  shows "backspace s =
     Inr (s\<lparr>buffer := take (nat (cursor_y s) - 1) (buffer s)
                 @ [buffer s ! (nat (cursor_y s) - 1) @ buffer s ! nat (cursor_y s)]
                 @ drop (nat (cursor_y s) + 1) (buffer s),
            cursor_y := cursor_y s - 1,
            cursor_x := len (buffer s ! (nat (cursor_y s) - 1)),
            unsaved := True\<rparr>)"
proof -
  let ?r = "nat (cursor_y s)"
  have r: "0 < ?r" "?r < length (buffer s)" "nat (cursor_y s - 1) = ?r - 1"
    using assms by (auto simp: len_def)
  have "take ?r ((buffer s)[?r - 1 := buffer s ! (?r - 1) @ buffer s ! ?r])
        = take (?r - 1) (buffer s) @ [buffer s ! (?r - 1) @ buffer s ! ?r]"
    using r by (cases ?r) (auto simp: take_Suc_conv_app_nth)
  then show ?thesis
    using assms r
    by (simp add: backspace_def py_index_def py_setitem_def py_pop_def Let_def len_def)
qed

theorem backspace_merges_witness:
  "cursor_x ((init None None)\<lparr>buffer := [str ''ab'', str ''cd''], cursor_y := 1\<rparr>) = 0 \<and>
   0 < cursor_y ((init None None)\<lparr>buffer := [str ''ab'', str ''cd''], cursor_y := 1\<rparr>) \<and>
   cursor_y ((init None None)\<lparr>buffer := [str ''ab'', str ''cd''], cursor_y := 1\<rparr>)
     < len (buffer ((init None None)\<lparr>buffer := [str ''ab'', str ''cd''], cursor_y := 1\<rparr>)) \<and>
   backspace ((init None None)\<lparr>buffer := [str ''ab'', str ''cd''], cursor_y := 1\<rparr>)
     = Inr ((init None None)\<lparr>buffer := [str ''abcd''], cursor_y := 0, cursor_x := 2, unsaved := True\<rparr>)"
  using backspace_merges[of "(init None None)\<lparr>buffer := [str ''ab'', str ''cd''], cursor_y := 1\<rparr>"]
  by (simp add: init_def len_def str_def)

section \<open>The buffer is never empty\<close>

lemma demo_run_merge:
  "main (init None None) [key_event 10, key_event 127]
   = Blocked \<lparr>buffer = [[]], cursor_y = 0, cursor_x = 0, scroll_offset = 0,
        filepath = None, status = ''EXEC MODE: type /q to quit, /s to save'', status_timer = 0,
        unsaved = True, command_mode = False, command_input = [], slash_prefix = False,
        disk = None, writes = []\<rparr>"
  by code_simp

text \<open>
  C8. In every state the session reaches from its initial state (created from the loaded
  content or as a single empty line), after any sequence of input events and so after
  every insert, delete-backward and split, the buffer has at least one line.
\<close>

theorem buffer_never_empty:
  assumes "main (init path content) evs = Blocked s \<or> main (init path content) evs = Done s"
  shows "buffer s \<noteq> []"
  using session_wf[OF assms] by (auto simp: wf_def cursor_ok_def len_def)

theorem buffer_never_empty_witness:
  "\<exists>s. main (init None None) [key_event 10, key_event 127] = Blocked s \<and> buffer s = [[]]
     \<and> buffer s \<noteq> []"
  using buffer_never_empty[of None None "[key_event 10, key_event 127]"] demo_run_merge by simp

section \<open>Saving and loading\<close>

lemma universal_newlines_step:
  "c \<noteq> 13 \<Longrightarrow> universal_newlines (c # cs) = c # universal_newlines cs"
  by (cases cs) auto

lemma universal_newlines_id: "13 \<notin> set t \<Longrightarrow> universal_newlines t = t"
  by (induction t) (auto simp: universal_newlines_step)

lemma splitlines_from_step:
  "c \<noteq> 13 \<Longrightarrow> splitlines_from acc (c # cs) =
     (if is_linebreak c then acc # splitlines_from [] cs else splitlines_from (acc @ [c]) cs)"
  by (cases cs) auto

lemma splitlines_from_line:
  "\<forall>c\<in>set l. \<not> is_linebreak c \<Longrightarrow>
   splitlines_from acc l = (if acc @ l = [] then [] else [acc @ l])"
proof (induction l arbitrary: acc)
  case Nil
  then show ?case by simp
next
  case (Cons c l)
  then have "c \<noteq> 13" by (auto simp: is_linebreak_def)
  with Cons show ?case by (simp add: splitlines_from_step)
qed

lemma splitlines_from_terminated:
  "\<forall>c\<in>set l. \<not> is_linebreak c \<Longrightarrow>
   splitlines_from acc (l @ 10 # rest) = (acc @ l) # splitlines_from [] rest"
proof (induction l arbitrary: acc)
  case Nil
  show ?case by (simp add: splitlines_from_step is_linebreak_def)
next
  case (Cons c l)
  then have "c \<noteq> 13" by (auto simp: is_linebreak_def)
  with Cons show ?case by (simp add: splitlines_from_step)
qed

lemma splitlines_join:
  "b \<noteq> [] \<Longrightarrow> \<forall>l\<in>set b. \<forall>c\<in>set l. \<not> is_linebreak c \<Longrightarrow>
   splitlines (join_nl b) = (if last b = [] then butlast b else b)"
proof (induction b rule: join_nl.induct)
  case 1
  then show ?case by simp
next
  case (2 l)
  then show ?case by (simp add: splitlines_def splitlines_from_line)
next
  case (3 l m ls)
  then have "splitlines (join_nl (m # ls)) = (if last (m # ls) = [] then butlast (m # ls) else m # ls)"
    by simp
  moreover have "splitlines (join_nl (l # m # ls)) = l # splitlines (join_nl (m # ls))"
    using "3.prems" by (simp add: splitlines_def splitlines_from_terminated)
  ultimately show ?case by simp
qed

lemma join_nl_clean:
  "\<forall>l\<in>set b. \<forall>c\<in>set l. \<not> is_linebreak c \<Longrightarrow> 13 \<notin> set (join_nl b)"
  by (induction b rule: join_nl.induct) (auto simp: is_linebreak_def)

lemma load_join:
  assumes "b \<noteq> []" and "\<forall>l\<in>set b. \<forall>c\<in>set l. \<not> is_linebreak c"
  shows "load (join_nl b) = (if last b = [] \<and> 2 \<le> length b then butlast b else b)"
proof -
  have "universal_newlines (join_nl b) = join_nl b"
    using join_nl_clean[OF assms(2)] by (rule universal_newlines_id)
  then have "load (join_nl b) = (if splitlines (join_nl b) = [] then [[]] else splitlines (join_nl b))"
    by (simp add: load_def Let_def)
  also have "\<dots> = (if last b = [] \<and> 2 \<le> length b then butlast b else b)"
  proof (cases b rule: rev_cases)
    case Nil
    with assms(1) show ?thesis by simp
  next
    case (snoc ys y)
    then show ?thesis using splitlines_join[OF assms] by (cases ys) auto
  qed
  finally show ?thesis .
qed

lemma join_nl_snoc:
  "join_nl (ls @ [l]) = concat (map (\<lambda>x. x @ [10]) ls) @ l"
  by (induction ls rule: join_nl.induct) auto

text \<open>
  C5, as amended. For every non-empty buffer whose lines contain no line terminator,
  saving and then loading the same path gives back the exact sequence of lines when the
  last line is not empty or the buffer is the single empty line; a buffer of two or more
  lines whose last line is empty comes back without that last line. The text written is
  the lines joined by one newline each: every line but the last is followed by one
  newline, the last line by nothing.
\<close>

theorem save_load_roundtrip:
  assumes "has_path s" and "buffer s \<noteq> []"
    and "\<forall>l\<in>set (buffer s). \<forall>c\<in>set l. \<not> is_linebreak c"
  shows "buffer (init (filepath s) (disk (save_file s)))
       = (if last (buffer s) = [] \<and> 2 \<le> length (buffer s) then butlast (buffer s)
          else buffer s)
     \<and> disk (save_file s) = Some (join_nl (buffer s))
     \<and> join_nl (buffer s) = concat (map (\<lambda>l. l @ [10]) (butlast (buffer s))) @ last (buffer s)"
proof -
  have d: "disk (save_file s) = Some (join_nl (buffer s))"
    using assms(1) by (simp add: save_file_def)
  have "buffer (init (filepath s) (Some (join_nl (buffer s)))) = load (join_nl (buffer s))"
    using assms(1) by (simp add: init_def Let_def has_path_def)
  then have r: "buffer (init (filepath s) (disk (save_file s)))
      = (if last (buffer s) = [] \<and> 2 \<le> length (buffer s) then butlast (buffer s)
         else buffer s)"
    using load_join[OF assms(2,3)] d by simp
  have "join_nl (butlast (buffer s) @ [last (buffer s)])
        = concat (map (\<lambda>l. l @ [10]) (butlast (buffer s))) @ last (buffer s)"
    by (rule join_nl_snoc)
  then have j: "join_nl (buffer s)
      = concat (map (\<lambda>l. l @ [10]) (butlast (buffer s))) @ last (buffer s)"
    using assms(2) by simp
  from r d j show ?thesis by simp
qed

theorem save_load_roundtrip_witness:
  "has_path ((init (Some ''f'') None)\<lparr>buffer := [str ''ab'', [], str ''c'']\<rparr>) \<and>
   buffer (init (Some ''f'') (disk (save_file ((init (Some ''f'') None)\<lparr>buffer := [str ''ab'', [], str ''c'']\<rparr>))))
     = [str ''ab'', [], str ''c''] \<and>
   disk (save_file ((init (Some ''f'') None)\<lparr>buffer := [str ''ab'', [], str ''c'']\<rparr>))
     = Some [97, 98, 10, 10, 99]"
proof -
  let ?s = "(init (Some ''f'') None)\<lparr>buffer := [str ''ab'', [], str ''c'']\<rparr>"
  have b: "buffer ?s = [str ''ab'', [], str ''c'']"
    and f: "filepath (init (Some ''f'') None) = Some ''f''"
    by (simp_all add: init_def)
  have h1: "has_path ?s" by (simp add: has_path_def init_def)
  have h2: "buffer ?s \<noteq> []" by (simp add: b)
  have h3: "\<forall>l\<in>set (buffer ?s). \<forall>c\<in>set l. \<not> is_linebreak c"
    by (simp add: b str_def is_linebreak_def)
  have l: "last (buffer ?s) \<noteq> []" by (simp add: b str_def)
  note r = save_load_roundtrip[OF h1 h2 h3]
  from r have "buffer (init (filepath ?s) (disk (save_file ?s)))
      = (if last (buffer ?s) = [] \<and> 2 \<le> length (buffer ?s) then butlast (buffer ?s)
         else buffer ?s)"
    by (rule conjunct1)
  with l have "buffer (init (filepath ?s) (disk (save_file ?s))) = buffer ?s"
    by (simp only: if_False simp_thms)
  then have r1: "buffer (init (Some ''f'') (disk (save_file ?s))) = [str ''ab'', [], str ''c'']"
    by (simp add: f)
  from r have "disk (save_file ?s) = Some (join_nl (buffer ?s))"
    by (rule conjunct2 [THEN conjunct1])
  then have r2: "disk (save_file ?s) = Some [97, 98, 10, 10, 99]"
    by (simp add: str_def)
  from h1 r1 r2 show ?thesis by simp
qed

text \<open>
  The claim as stated fails on the buffer \<open>["a", ""]\<close>: it is written as \<open>a\n\<close>, and
  \<open>splitlines\<close> reads that as the single line \<open>a\<close>.
\<close>

theorem trailing_empty_line_counterexample:
  "buffer (init (Some ''f'') (disk (save_file ((init (Some ''f'') None)\<lparr>buffer := [str ''a'', []]\<rparr>))))
     = [str ''a''] \<and>
   buffer (init (Some ''f'') (disk (save_file ((init (Some ''f'') None)\<lparr>buffer := [str ''a'', []]\<rparr>))))
     \<noteq> buffer ((init (Some ''f'') None)\<lparr>buffer := [str ''a'', []]\<rparr>)"
  by (simp add: init_def has_path_def save_file_def load_def splitlines_def str_def
      is_linebreak_def Let_def)

section \<open>The commands\<close>

lemma render_turn:
  assumes "wf s"
  shows "\<exists>s1. draw h w s = Inr s1 \<and> wf (tick s1) \<and> same_document s (tick s1)
     \<and> command_mode (tick s1) = command_mode s \<and> command_input (tick s1) = command_input s"
proof -
  obtain s1 where d: "draw h w s = Inr s1" and w: "wf s1"
    using draw_wf[OF assms, of h w] by blast
  from d have "same_document s s1 \<and> command_mode s1 = command_mode s
      \<and> command_input s1 = command_input s"
    by (auto simp: draw_def reconcile_def Let_def same_document_def split: sum.splits)
  then have "same_document s (tick s1) \<and> command_mode (tick s1) = command_mode s
      \<and> command_input (tick s1) = command_input s"
    by (simp add: tick_def Let_def same_document_def)
  with d tick_wf[OF w] show ?thesis by blast
qed








lemma prompt_turn:
  assumes "wf s" and "command_mode s" and "strip (command_input s) = str ''q''"
    and "unsaved s" and "ev_key e1 = 10 \<or> ev_key e1 = 13"
    and "ev_key e2 = ord CHR ''n'' \<or> ev_key e2 = ord CHR ''N''"
  shows "\<exists>s'. main_loop s (e1 # e2 # es) = Done s' \<and> same_document s s'"
proof -
  obtain s1 where d1: "draw (ev_h e1) (ev_w e1) s = Inr s1" and w1: "wf (tick s1)"
    and f1: "same_document s (tick s1)" and m1: "command_mode (tick s1) = command_mode s"
    and i1: "command_input (tick s1) = command_input s"
    using render_turn[OF assms(1), of "ev_h e1" "ev_w e1"] by blast
  let ?p = "(tick s1)\<lparr>status := ''Save before quitting? (y/N/esc)''\<rparr>"
  have wp: "wf ?p" using w1 by (simp add: wf_def cursor_ok_def)
  obtain s2 where d2: "draw (ev_h e2) (ev_w e2) ?p = Inr s2"
    using draw_wf[OF wp, of "ev_h e2" "ev_w e2"] by blast
  then have f2: "same_document ?p s2"
    by (auto simp: draw_def reconcile_def Let_def same_document_def split: sum.splits)
  have k: "prompt_keys s2 (e2 # es) = Done (True, s2, es)"
    using assms(6) by (auto simp: ord_def)
  have "prompt_save (tick s1) (e2 # es) = Done (True, s2, es)"
    using d2 k by (simp add: prompt_save_def)
  moreover have "unsaved (tick s1)" using f1 assms(4) by (simp add: same_document_def)
  ultimately have h: "handle_command (tick s1) (e2 # es) = Done (False, s2, es)"
    using i1 assms(3) by (simp add: handle_command_def Let_def str_def)
  have "main_loop s (e1 # e2 # es) = Done s2"
    using d1 m1 assms(2,5) h by (simp add: Let_def)
  moreover have "same_document s s2" using f1 f2 by (simp add: same_document_def)
  ultimately show ?thesis by blast
qed

lemma decline_still_saves:
  assumes "wf s" and "command_mode s" and "strip (command_input s) = str ''q''"
    and "unsaved s" and "has_path s" and "ev_key e1 = 10 \<or> ev_key e1 = 13"
    and "ev_key e2 = ord CHR ''n'' \<or> ev_key e2 = ord CHR ''N''"
  shows "\<exists>s'. main s (e1 # e2 # es) = Done s' \<and> writes s' = writes s @ [join_nl (buffer s)]
     \<and> disk s' = Some (join_nl (buffer s))"
proof -
  obtain s2 where l: "main_loop s (e1 # e2 # es) = Done s2" and f: "same_document s s2"
    using prompt_turn[OF assms(1-4,6,7), of es] by blast
  have "has_path s2" "unsaved s2"
    using f assms(4,5) by (simp_all add: same_document_def has_path_def)
  then have "main s (e1 # e2 # es) = Done (save_file s2)"
    using l by (simp add: main_def)
  moreover have "writes (save_file s2) = writes s @ [join_nl (buffer s)]"
    "disk (save_file s2) = Some (join_nl (buffer s))"
    using f \<open>has_path s2\<close> by (simp_all add: save_file_def same_document_def)
  ultimately show ?thesis by blast
qed

text \<open>
  C3 says that answering \<open>n\<close> to the prompt of the quit command ends the session without
  saving. The code saves: \<open>prompt_save\<close> returns without saving, the loop ends, and the
  save on exit of \<open>main\<close> finds a path and the dirty flag still set. Here a session on
  the empty file \<open>f\<close> types \<open>a\<close>, then \<open>/q\<close> and Enter; at the prompt nothing has been
  written, and after \<open>n\<close> the session has exited and the file holds \<open>a\<close>.
\<close>

theorem quit_without_saving_saves:
  "(\<exists>b. main (init (Some ''f'') (Some [])) (map (\<lambda>c. key_event (ord c)) ''a/q'' @ [key_event 10])
         = Blocked b \<and> unsaved b \<and> writes b = [] \<and> disk b = Some []) \<and>
   (\<exists>s. main (init (Some ''f'') (Some []))
           (map (\<lambda>c. key_event (ord c)) ''a/q'' @ [key_event 10, key_event (ord CHR ''n'')])
         = Done s \<and> writes s = [str ''a''] \<and> disk s = Some (str ''a''))"
proof -
  have "main (init (Some ''f'') (Some [])) (map (\<lambda>c. key_event (ord c)) ''a/q'' @ [key_event 10])
      = Blocked \<lparr>buffer = [[97]], cursor_y = 0, cursor_x = 1, scroll_offset = 0,
          filepath = Some ''f'', status = ''Save before quitting? (y/N/esc)'',
          status_timer = 0, unsaved = True, command_mode = True, command_input = [113],
          slash_prefix = False, disk = Some [], writes = []\<rparr>"
    by code_simp
  moreover have "main (init (Some ''f'') (Some []))
        (map (\<lambda>c. key_event (ord c)) ''a/q'' @ [key_event 10, key_event (ord CHR ''n'')])
      = Done \<lparr>buffer = [[97]], cursor_y = 0, cursor_x = 1, scroll_offset = 0,
          filepath = Some ''f'', status = ''File saved.'', status_timer = 20,
          unsaved = False, command_mode = True, command_input = [113],
          slash_prefix = False, disk = Some [97], writes = [[97]]\<rparr>"
    by code_simp
  ultimately show ?thesis by (simp add: str_def)
qed

end
